theory Spec2Isabelle
  imports Complex_Main "HOL-Library.Multiset"
begin

section \<open>Python primitives used by the RAG application\<close>

text \<open>
  A Python \<open>str\<close> is modelled as an Isabelle \<open>string\<close>, one \<open>char\<close> per code point
  (code points below 256).  Exceptions are values: \<open>Inl\<close> of a sum type.
\<close>

datatype error =
    ValueError string
  | TypeError string
  | OverflowError string
  | Raised string

fun str_of_error :: "error \<Rightarrow> string" where
  "str_of_error (ValueError msg) = msg"
| "str_of_error (TypeError msg) = msg"
| "str_of_error (OverflowError msg) = msg"
| "str_of_error (Raised msg) = msg"

text \<open>
  The characters \<open>str.split()\<close> treats as whitespace: TAB, LF, VT, FF, CR, the
  separators FS, GS, RS, US, the space, NEL and the no-break space.
\<close>

definition is_space :: "char \<Rightarrow> bool" where
  "is_space c = ((of_char c :: nat) \<in> {9, 10, 11, 12, 13, 28, 29, 30, 31, 32, 133, 160})"

text \<open>
  \<open>text.split()\<close>: scan the text, collecting the current word in \<open>w\<close>; a whitespace
  character closes a non-empty word, runs of whitespace produce nothing.
\<close>

fun split_from :: "string \<Rightarrow> string \<Rightarrow> string list" where
  "split_from w [] = (if w = [] then [] else [w])"
| "split_from w (c # cs) =
     (if is_space c
      then (if w = [] then split_from [] cs else w # split_from [] cs)
      else split_from (w @ [c]) cs)"

definition py_split :: "string \<Rightarrow> string list" where
  "py_split text = split_from [] text"

text \<open>\<open>sep.join(xs)\<close>\<close>

fun py_join :: "string \<Rightarrow> string list \<Rightarrow> string" where
  "py_join sep [] = []"
| "py_join sep [x] = x"
| "py_join sep (x # y # ys) = x @ sep @ py_join sep (y # ys)"

text \<open>
  \<open>xs[i:j]\<close>: a negative index counts from the end, and both indices are clamped to
  \<open>0 .. len(xs)\<close>; the slice is empty when the stop is not beyond the start.
\<close>

definition slice_index :: "int \<Rightarrow> nat \<Rightarrow> nat" where
  "slice_index i n =
     (if i < 0 then (if i + int n < 0 then 0 else nat (i + int n))
      else if int n < i then n else nat i)"

definition py_slice :: "'a list \<Rightarrow> int \<Rightarrow> int \<Rightarrow> 'a list" where
  "py_slice xs i j =
     (let a = slice_index i (length xs); b = slice_index j (length xs)
      in take (b - a) (drop a xs))"

text \<open>
  \<open>range(lo, hi, step)\<close> for a non-zero step (a zero step raises \<open>ValueError\<close>, which
  the caller models): its length and its \<open>k\<close>-th element \<open>lo + k * step\<close>.
\<close>

definition range_len :: "int \<Rightarrow> int \<Rightarrow> int \<Rightarrow> nat" where
  "range_len lo hi step =
     (if 0 < step \<and> lo < hi then nat ((hi - lo - 1) div step + 1)
      else if step < 0 \<and> hi < lo then nat ((lo - hi - 1) div (- step) + 1)
      else 0)"

definition py_range :: "int \<Rightarrow> int \<Rightarrow> int \<Rightarrow> int list" where
  "py_range lo hi step = map (\<lambda>k. lo + int k * step) [0..<range_len lo hi step]"

text \<open>
  Further string primitives: the line feed, \<open>str(n)\<close> for a natural number, a
  zero-padded decimal field as \<open>strftime\<close> prints it, \<open>str.strip()\<close> and
  \<open>str.lower()\<close>.
\<close>

definition NL :: string where
  "NL = [CHR 0x0A]"

definition digit_char :: "nat \<Rightarrow> char" where
  "digit_char d = char_of (48 + d)"

fun str_nat :: "nat \<Rightarrow> string" where
  "str_nat n = (if n < 10 then [digit_char n] else str_nat (n div 10) @ [digit_char (n mod 10)])"

declare str_nat.simps [simp del]

fun zfill :: "nat \<Rightarrow> nat \<Rightarrow> string" where
  "zfill 0 x = []"
| "zfill (Suc w) x = zfill w (x div 10) @ [digit_char (x mod 10)]"

definition strip :: "string \<Rightarrow> string" where
  "strip s = rev (dropWhile is_space (rev (dropWhile is_space s)))"

definition lower_char :: "char \<Rightarrow> char" where
  "lower_char c =
     (let n = (of_char c :: nat)
      in if (65 \<le> n \<and> n \<le> 90) \<or> (192 \<le> n \<and> n \<le> 222 \<and> n \<noteq> 215)
         then char_of (n + 32) else c)"

definition lower :: "string \<Rightarrow> string" where
  "lower s = map lower_char s"

section \<open>The chunker: \<open>RAGApp.chunk_text\<close>\<close>

text \<open>
  The body of the \<open>for\<close> loop, run over the indices the range yields: the window
  \<open>words[i:i + chunk_size]\<close> is joined with single spaces and appended unless it is the
  empty string.
\<close>

fun chunk_loop :: "string list \<Rightarrow> int \<Rightarrow> int list \<Rightarrow> string list \<Rightarrow> string list" where
  "chunk_loop words chunk_size [] chunks = chunks"
| "chunk_loop words chunk_size (i # rest) chunks =
     (let chunk = py_join '' '' (py_slice words i (i + chunk_size))
      in chunk_loop words chunk_size rest (if chunk \<noteq> [] then chunks @ [chunk] else chunks))"

definition chunk_text :: "string \<Rightarrow> int \<Rightarrow> int \<Rightarrow> error + string list" where
  "chunk_text text chunk_size overlap =
     (let words = py_split text
      in if chunk_size - overlap = 0
         then Inl (ValueError ''range() arg 3 must not be zero'')
         else Inr (chunk_loop words chunk_size
                     (py_range 0 (int (length words)) (chunk_size - overlap)) []))"

text \<open>
  Two notions used to state the chunker's properties: a word as \<open>split()\<close> yields it
  (non-empty, free of whitespace), and the number of indices \<open>range(0, n, s)\<close> runs
  through for a positive stride \<open>s\<close>.
\<close>

definition wordlike :: "string \<Rightarrow> bool" where
  "wordlike w = (w \<noteq> [] \<and> (\<forall>c\<in>set w. \<not> is_space c))"

definition window_count :: "nat \<Rightarrow> nat \<Rightarrow> nat" where
  "window_count n s = (if n = 0 then 0 else (n - 1) div s + 1)"

section \<open>Data model\<close>

text \<open>
  One entry of the Chroma collection as \<open>index_pdf\<close> adds it: the id, the document
  (chunk text) and the metadata \<open>chunk_id\<close>, \<open>source\<close>.
\<close>

record entry =
  entry_id :: string
  document :: string
  chunk_id :: nat
  source :: string

text \<open>A reading of \<open>datetime.now()\<close>.\<close>

record datetime =
  year :: nat
  month :: nat
  day :: nat
  hour :: nat
  minute :: nat
  second :: nat
  microsecond :: nat

text \<open>
  The readings a running system can produce.  The year is kept to four digits, where
  \<open>%Y\<close> prints the same on every platform.
\<close>

definition valid_datetime :: "datetime \<Rightarrow> bool" where
  "valid_datetime t =
     (1000 \<le> year t \<and> year t \<le> 9999 \<and> 1 \<le> month t \<and> month t \<le> 12 \<and>
      1 \<le> day t \<and> day t \<le> 31 \<and> hour t < 24 \<and> minute t < 60 \<and> second t < 60 \<and>
      microsecond t < 1000000)"

text \<open>\<open>strftime("%Y%m%d_%H%M%S_%f")\<close>\<close>

definition strftime :: "datetime \<Rightarrow> string" where
  "strftime t =
     zfill 4 (year t) @ zfill 2 (month t) @ zfill 2 (day t) @ ''_'' @
     zfill 2 (hour t) @ zfill 2 (minute t) @ zfill 2 (second t) @ ''_'' @
     zfill 6 (microsecond t)"

text \<open>\<open>isoformat()\<close>: the fraction is printed only when the microsecond is not zero.\<close>

definition isoformat :: "datetime \<Rightarrow> string" where
  "isoformat t =
     zfill 4 (year t) @ ''-'' @ zfill 2 (month t) @ ''-'' @ zfill 2 (day t) @ ''T'' @
     zfill 2 (hour t) @ '':'' @ zfill 2 (minute t) @ '':'' @ zfill 2 (second t) @
     (if microsecond t = 0 then [] else ''.'' @ zfill 6 (microsecond t))"

text \<open>
  The reply of \<open>ollama.chat\<close>.  \<open>content\<close> is the outcome of
  \<open>response['message']['content']\<close>: the text, or the exception the access raises.
  \<open>counters\<close> holds the optional top-level keys; a key that is present holds an integer
  or \<open>None\<close>.  \<open>response.get(key, 0)\<close> gives the value of a present key and 0 for an
  absent one.
\<close>

datatype pyval = PyInt int | PyNone

record chat_response =
  content :: "error + string"
  counters :: "string \<Rightarrow> pyval option"

definition get_or_zero :: "chat_response \<Rightarrow> string \<Rightarrow> pyval" where
  "get_or_zero response key = (case counters response key of None \<Rightarrow> PyInt 0 | Some v \<Rightarrow> v)"

record token_info =
  prompt_eval_count :: pyval
  eval_count :: pyval
  total_duration :: pyval
  load_duration :: pyval
  prompt_eval_duration :: pyval
  eval_duration :: pyval

text \<open>
  The arithmetic \<open>save_query_log\<close> does on these values.  \<open>a + b\<close> and \<open>a / 1e9\<close>
  raise \<open>TypeError\<close> on \<open>None\<close>; the division converts the integer to a float first,
  which raises \<open>OverflowError\<close> from \<open>2 ^ 1024 - 2 ^ 970\<close> on.  The quotient is kept as
  an exact real.
\<close>

fun type_name :: "pyval \<Rightarrow> string" where
  "type_name (PyInt i) = ''int''"
| "type_name PyNone = ''NoneType''"

definition quoted :: "string \<Rightarrow> string" where
  "quoted s = [CHR 0x27] @ s @ [CHR 0x27]"

fun py_add :: "pyval \<Rightarrow> pyval \<Rightarrow> error + int" where
  "py_add (PyInt a) (PyInt b) = Inr (a + b)"
| "py_add a b =
     Inl (TypeError (''unsupported operand type(s) for +: '' @ quoted (type_name a) @
                     '' and '' @ quoted (type_name b)))"

definition float_limit :: int where
  "float_limit = 2 ^ 1024 - 2 ^ 970"

fun div_1e9 :: "pyval \<Rightarrow> error + real" where
  "div_1e9 (PyInt a) =
     (if float_limit \<le> \<bar>a\<bar> then Inl (OverflowError ''int too large to convert to float'')
      else Inr (real_of_int a / 1000000000))"
| "div_1e9 PyNone =
     Inl (TypeError (''unsupported operand type(s) for /: '' @ quoted ''NoneType'' @
                     '' and '' @ quoted ''float''))"

text \<open>The JSON document of one log file.\<close>

record timing =
  total_duration_ns :: pyval
  load_duration_ns :: pyval
  prompt_eval_duration_ns :: pyval
  eval_duration_ns :: pyval
  total_duration_sec :: real
  eval_duration_sec :: real

record token_details_doc =
  prompt_tokens :: pyval
  response_tokens :: pyval
  total_tokens :: int
  timing :: timing

record metadata =
  context_length_chars :: nat
  prompt_length_chars :: nat
  pdf_source :: string

record log_data =
  timestamp :: string
  log_model :: string
  question :: string
  response :: string
  metadata :: metadata
  token_details :: "token_details_doc option"

text \<open>
  The application object together with the log directory it writes to: \<open>writes\<close> lists
  the files written so far with their content, oldest first.
\<close>

record rag_app =
  pdf_path :: string
  collection_name :: string
  collection :: "entry list"
  model :: string
  logs_dir :: string
  writes :: "(string \<times> log_data) list"

text \<open>
  The directory after the writes: \<open>open(log_file, 'w')\<close> replaces a file of the same
  name, so the latest write under a name is the one that stays.
\<close>

definition disk :: "rag_app \<Rightarrow> string \<Rightarrow> log_data option" where
  "disk self = map_of (rev (writes self))"

section \<open>The query log: \<open>RAGApp.save_query_log\<close>\<close>

definition log_file_name :: "rag_app \<Rightarrow> datetime \<Rightarrow> string" where
  "log_file_name self now = logs_dir self @ ''/'' @ ''query_'' @ strftime now @ ''.json''"

text \<open>
  The \<open>token_details\<close> entry, its values computed in the order of the dictionary
  display: the sum of the two counts, then the two durations in seconds.
\<close>

definition token_details_of :: "token_info \<Rightarrow> error + token_details_doc" where
  "token_details_of info =
     (case py_add (prompt_eval_count info) (eval_count info) of
        Inl e \<Rightarrow> Inl e
      | Inr token_sum \<Rightarrow>
          (case div_1e9 (total_duration info) of
             Inl e \<Rightarrow> Inl e
           | Inr total_sec \<Rightarrow>
               (case div_1e9 (eval_duration info) of
                  Inl e \<Rightarrow> Inl e
                | Inr eval_sec \<Rightarrow>
                    Inr \<lparr>prompt_tokens = prompt_eval_count info,
                         response_tokens = eval_count info,
                         total_tokens = token_sum,
                         timing = \<lparr>total_duration_ns = total_duration info,
                                   load_duration_ns = load_duration info,
                                   prompt_eval_duration_ns = prompt_eval_duration info,
                                   eval_duration_ns = eval_duration info,
                                   total_duration_sec = total_sec,
                                   eval_duration_sec = eval_sec\<rparr>\<rparr>)))"

text \<open>
  \<open>save_query_log\<close> reads the clock twice: \<open>now_file\<close> names the file and \<open>now_stamp\<close>
  fills the \<open>timestamp\<close> key.  It first builds the document; \<open>token_details\<close> is added
  only for a \<open>token_info\<close> that is not \<open>None\<close> (a dictionary of six keys is always
  true), and computing it may raise, before any file is opened.  Then it writes the
  file; creating the file is taken to succeed.
\<close>

definition build_log_data ::
  "rag_app \<Rightarrow> string \<Rightarrow> string \<Rightarrow> nat \<Rightarrow> nat \<Rightarrow> token_info option \<Rightarrow> datetime
     \<Rightarrow> error + log_data" where
  "build_log_data self question' answer context_length prompt_length info now_stamp =
     (let log_data = \<lparr>timestamp = isoformat now_stamp,
                      log_model = model self,
                      question = question',
                      response = answer,
                      metadata = \<lparr>context_length_chars = context_length,
                                   prompt_length_chars = prompt_length,
                                   pdf_source = pdf_path self\<rparr>,
                      token_details = None\<rparr>
      in case info of
           None \<Rightarrow> Inr log_data
         | Some i \<Rightarrow>
             (case token_details_of i of
                Inl e \<Rightarrow> Inl e
              | Inr details \<Rightarrow> Inr (log_data\<lparr>token_details := Some details\<rparr>)))"

definition write_log_file :: "rag_app \<Rightarrow> datetime \<Rightarrow> log_data \<Rightarrow> rag_app" where
  "write_log_file self now_file data =
     self\<lparr>writes := writes self @ [(log_file_name self now_file, data)]\<rparr>"

definition save_query_log ::
  "rag_app \<Rightarrow> string \<Rightarrow> string \<Rightarrow> nat \<Rightarrow> nat \<Rightarrow> token_info option \<Rightarrow> datetime \<Rightarrow> datetime
     \<Rightarrow> error + rag_app" where
  "save_query_log self question' answer context_length prompt_length info now_file now_stamp =
     (case build_log_data self question' answer context_length prompt_length info now_stamp of
        Inl e \<Rightarrow> Inl e
      | Inr data \<Rightarrow> Inr (write_log_file self now_file data))"

section \<open>Answering a question: \<open>RAGApp.query\<close>\<close>

text \<open>
  The two external calls are parameters.  \<open>retrieve\<close> stands for
  \<open>collection.query(query_texts=[question], n_results=n_results)\<close> followed by
  \<open>results['documents'][0]\<close>: it returns the ranked documents or raises.  \<open>chat\<close> stands
  for \<open>ollama.chat\<close> on the model name and the prompt: it returns a reply or raises an
  \<open>Exception\<close>.
\<close>

type_synonym retriever = "entry list \<Rightarrow> string \<Rightarrow> int \<Rightarrow> error + string list"
type_synonym backend = "string \<Rightarrow> string \<Rightarrow> error + chat_response"

definition build_prompt :: "string \<Rightarrow> string \<Rightarrow> string" where
  "build_prompt context question' =
     ''Based on the following context from the document, please answer the question.'' @ NL @
     NL @
     ''Context:'' @ NL @
     context @ NL @
     NL @
     ''Question: '' @ question' @ NL @
     NL @
     ''Answer:''"

definition token_info_of :: "chat_response \<Rightarrow> token_info" where
  "token_info_of reply =
     \<lparr>prompt_eval_count = get_or_zero reply ''prompt_eval_count'',
      eval_count = get_or_zero reply ''eval_count'',
      total_duration = get_or_zero reply ''total_duration'',
      load_duration = get_or_zero reply ''load_duration'',
      prompt_eval_duration = get_or_zero reply ''prompt_eval_duration'',
      eval_duration = get_or_zero reply ''eval_duration''\<rparr>"

text \<open>
  The \<open>except Exception\<close> branch: the exception becomes the answer text, which is
  logged without token information and returned.
\<close>

definition except_branch ::
  "rag_app \<Rightarrow> string \<Rightarrow> nat \<Rightarrow> nat \<Rightarrow> error \<Rightarrow> datetime \<Rightarrow> datetime
     \<Rightarrow> error + (string \<times> rag_app)" where
  "except_branch self question' context_length prompt_length e now_file now_stamp =
     (let error_msg = ''Error querying model: '' @ str_of_error e
      in case save_query_log self question' error_msg context_length prompt_length None
                now_file now_stamp of
           Inl e' \<Rightarrow> Inl e'
         | Inr self' \<Rightarrow> Inr (error_msg, self'))"

text \<open>
  The retrieval call stands before the \<open>try\<close>, so what it raises leaves \<open>query\<close>
  unhandled.  The \<open>try\<close> covers the backend call, the access to the reply's content,
  the token information and the call of \<open>save_query_log\<close>; an exception raised by any
  of them enters the \<open>except\<close> branch.  The clock readings \<open>now_file\<close>, \<open>now_stamp\<close> are
  those of the first call of \<open>save_query_log\<close>; when that call is the one that raised,
  the call in the \<open>except\<close> branch reads \<open>retry_file\<close>, \<open>retry_stamp\<close>.
\<close>

definition query ::
  "string \<Rightarrow> int \<Rightarrow> rag_app \<Rightarrow> retriever \<Rightarrow> backend
     \<Rightarrow> datetime \<Rightarrow> datetime \<Rightarrow> datetime \<Rightarrow> datetime
     \<Rightarrow> error + (string \<times> rag_app)" where
  "query question' n_results self retrieve chat now_file now_stamp retry_file retry_stamp =
     (case retrieve (collection self) question' n_results of
        Inl e \<Rightarrow> Inl e
      | Inr context_chunks \<Rightarrow>
          (let context = py_join (NL @ NL) context_chunks;
               context_length = length context;
               prompt = build_prompt context question';
               prompt_length = length prompt
           in case chat (model self) prompt of
                Inl e \<Rightarrow>
                  except_branch self question' context_length prompt_length e now_file now_stamp
              | Inr reply \<Rightarrow>
                  (case content reply of
                     Inl e \<Rightarrow>
                       except_branch self question' context_length prompt_length e
                         now_file now_stamp
                   | Inr answer \<Rightarrow>
                       (let info = token_info_of reply
                        in case save_query_log self question' answer context_length
                                  prompt_length (Some info) now_file now_stamp of
                             Inr self' \<Rightarrow> Inr (answer, self')
                           | Inl e \<Rightarrow>
                               except_branch self question' context_length prompt_length e
                                 retry_file retry_stamp))))"

section \<open>Indexing: \<open>RAGApp.index_pdf\<close>\<close>

text \<open>\<open>extract_text_from_pdf\<close> on the texts of the pages the reader yields.\<close>

definition extract_text_from_pdf :: "string list \<Rightarrow> string" where
  "extract_text_from_pdf pages =
     concat (map (\<lambda>(i, page). NL @ ''--- Page '' @ str_nat (i + 1) @ '' ---'' @ NL @ page)
               (enumerate 0 pages))"

text \<open>
  \<open>reply\<close> is the answer to the re-index prompt (read only when the collection is not
  empty) and \<open>pages\<close> the outcome of reading the PDF.  The chunker is called with its
  default arguments 500 and 50.  \<open>add\<close> stands for \<open>collection.add\<close> on the current
  collection and one entry per chunk: it returns the collection with the entries
  stored, or raises.
\<close>

type_synonym adder = "entry list \<Rightarrow> entry list \<Rightarrow> error + entry list"

definition chunk_entries :: "rag_app \<Rightarrow> string list \<Rightarrow> entry list" where
  "chunk_entries self chunks =
     map (\<lambda>(i, chunk). \<lparr>entry_id = ''chunk_'' @ str_nat i,
                         document = chunk,
                         chunk_id = i,
                         source = pdf_path self\<rparr>)
       (enumerate 0 chunks)"

definition index_pdf ::
  "rag_app \<Rightarrow> string \<Rightarrow> error + string list \<Rightarrow> adder \<Rightarrow> error + rag_app" where
  "index_pdf self reply pages add =
     (if 0 < length (collection self) \<and> lower reply \<noteq> ''y'' then Inr self
      else
        (let self' = (if 0 < length (collection self) then self\<lparr>collection := []\<rparr> else self)
         in case pages of
              Inl e \<Rightarrow> Inl e
            | Inr ps \<Rightarrow>
                (case chunk_text (extract_text_from_pdf ps) 500 50 of
                   Inl e \<Rightarrow> Inl e
                 | Inr chunks \<Rightarrow>
                     (case add (collection self') (chunk_entries self chunks) of
                        Inl e \<Rightarrow> Inl e
                      | Inr stored \<Rightarrow> Inr (self'\<lparr>collection := stored\<rparr>)))))"

section \<open>The interactive session: one turn of \<open>RAGApp.run_interactive\<close>\<close>

datatype input_event = Line string | KeyboardInterrupt

datatype session = Ready | Terminated

datatype printed = Goodbye | Stats nat string | Answer string | ErrorMessage string

text \<open>
  One pass through the body of the \<open>while True\<close> loop.  An interrupt at the prompt and
  the words quit, exit, q leave the loop; an exception that reaches the loop is printed
  and the loop goes on.
\<close>

definition run_turn ::
  "rag_app \<Rightarrow> input_event \<Rightarrow> retriever \<Rightarrow> backend
     \<Rightarrow> datetime \<Rightarrow> datetime \<Rightarrow> datetime \<Rightarrow> datetime
     \<Rightarrow> session \<times> rag_app \<times> printed list" where
  "run_turn self ev retrieve chat now_file now_stamp retry_file retry_stamp =
     (case ev of
        KeyboardInterrupt \<Rightarrow> (Terminated, self, [Goodbye])
      | Line raw \<Rightarrow>
          (let question' = strip raw
           in if question' = [] then (Ready, self, [])
              else if lower question' \<in> set [''quit'', ''exit'', ''q'']
                then (Terminated, self, [Goodbye])
              else if lower question' = ''stats''
                then (Ready, self, [Stats (length (collection self)) (collection_name self)])
              else (case query question' 5 self retrieve chat now_file now_stamp
                           retry_file retry_stamp of
                      Inr (answer, self') \<Rightarrow> (Ready, self', [Answer answer])
                    | Inl e \<Rightarrow> (Ready, self, [ErrorMessage (str_of_error e)]))))"

section \<open>The vector index\<close>

text \<open>
  Modelled from the spec: \<open>VectorIndex.query\<close> (section 4.2).  The nearest-neighbour
  search is Chroma's \<open>Collection.query\<close>, which is not part of the sources; the
  application only calls it.  Following the spec, the query text is scored against every
  entry of the current generation by an opaque similarity, the entries are ranked by
  descending score, entries of equal score keeping their order, and the first \<open>top_k\<close>
  are returned.
\<close>

fun insert_ranked :: "('a \<times> 's::linorder) \<Rightarrow> ('a \<times> 's) list \<Rightarrow> ('a \<times> 's) list" where
  "insert_ranked x [] = [x]"
| "insert_ranked x (y # ys) = (if snd y \<le> snd x then x # y # ys else y # insert_ranked x ys)"

definition rank :: "('a \<times> 's::linorder) list \<Rightarrow> ('a \<times> 's) list" where
  "rank xs = foldr insert_ranked xs []"

definition vector_index_count :: "entry list \<Rightarrow> nat" where
  "vector_index_count entries = length entries"

definition vector_index_query ::
  "(string \<Rightarrow> string \<Rightarrow> 's::linorder) \<Rightarrow> entry list \<Rightarrow> string \<Rightarrow> nat \<Rightarrow> (entry \<times> 's) list" where
  "vector_index_query similarity entries text top_k =
     take top_k (rank (map (\<lambda>e. (e, similarity text (document e))) entries))"

section \<open>Concrete inputs\<close>

text \<open>
  A freshly constructed application, a clock reading, and stand-ins for the two
  external calls: a retriever that returns two documents, one that finds nothing, one
  that raises, a backend that echoes the prompt with two counters, and one that raises.
\<close>

definition example_app :: rag_app where
  "example_app =
     \<lparr>pdf_path = ''paper.pdf'', collection_name = ''pdf_rag'', collection = [],
      model = ''qwen3-vl:32b'', logs_dir = ''query_logs'', writes = []\<rparr>"

definition example_time :: datetime where
  "example_time =
     \<lparr>year = 2025, month = 11, day = 5, hour = 9, minute = 3, second = 7, microsecond = 42\<rparr>"

definition two_documents :: retriever where
  "two_documents entries text n = Inr [''first chunk'', ''second chunk'']"

definition no_documents :: retriever where
  "no_documents entries text n = Inr []"

definition failing_retriever :: retriever where
  "failing_retriever entries text n = Inl (Raised ''embedding failed'')"

definition echo_backend :: backend where
  "echo_backend name prompt =
     Inr \<lparr>content = Inr prompt,
          counters = [''prompt_eval_count'' \<mapsto> PyInt 12, ''eval_count'' \<mapsto> PyInt 30]\<rparr>"

definition failing_backend :: backend where
  "failing_backend name prompt = Inl (Raised ''connection refused'')"

text \<open>
  A backend whose reply leaves a counter unset, one that answers one prompt only, an
  \<open>add\<close> that refuses an empty list of entries, a second clock reading in the same
  second, two log documents, three indexed chunks and a similarity that scores a
  document by its length.
\<close>

definition unset_counter_backend :: backend where
  "unset_counter_backend name prompt =
     Inr \<lparr>content = Inr ''an answer'',
          counters = [''prompt_eval_count'' \<mapsto> PyNone, ''eval_count'' \<mapsto> PyInt 30]\<rparr>"

definition strict_add :: adder where
  "strict_add stored new =
     (if new = [] then Inl (ValueError ''Expected IDs to be a non-empty list'')
      else Inr (stored @ new))"

definition example_log :: "string \<Rightarrow> log_data" where
  "example_log q =
     \<lparr>timestamp = isoformat example_time, log_model = ''qwen3-vl:32b'', question = q,
      response = ''an answer'',
      metadata = \<lparr>context_length_chars = 0, prompt_length_chars = 0,
                   pdf_source = ''paper.pdf''\<rparr>,
      token_details = None\<rparr>"

definition other_backend :: backend where
  "other_backend name prompt =
     (if prompt = build_prompt (py_join (NL @ NL) [''first chunk'', ''second chunk'']) ''why?''
      then echo_backend name prompt else failing_backend name prompt)"

definition later_time :: datetime where
  "later_time = example_time\<lparr>microsecond := 43\<rparr>"

definition three_entries :: "entry list" where
  "three_entries =
     [\<lparr>entry_id = ''chunk_0'', document = ''aa'', chunk_id = 0, source = ''paper.pdf''\<rparr>,
      \<lparr>entry_id = ''chunk_1'', document = ''aaaa'', chunk_id = 1, source = ''paper.pdf''\<rparr>,
      \<lparr>entry_id = ''chunk_2'', document = ''aaa'', chunk_id = 2, source = ''paper.pdf''\<rparr>]"

definition length_similarity :: "string \<Rightarrow> string \<Rightarrow> nat" where
  "length_similarity text doc = length doc"

section \<open>Properties of the chunker\<close>

lemma chunk_loop_filter_map:
  "chunk_loop words cs idxs acc =
     acc @ filter (\<lambda>c. c \<noteq> []) (map (\<lambda>i. py_join '' '' (py_slice words i (i + cs))) idxs)"
  by (induction idxs arbitrary: acc) (simp_all add: Let_def)

lemma split_from_wordlike:
  "(\<forall>c\<in>set w. \<not> is_space c) \<Longrightarrow> x \<in> set (split_from w t) \<Longrightarrow> wordlike x"
proof (induction t arbitrary: w)
  case Nil
  then show ?case by (auto simp: wordlike_def split: if_splits)
next
  case (Cons a t)
  show ?case
  proof (cases "is_space a")
    case True
    with Cons.prems have "x = w \<and> w \<noteq> [] \<or> x \<in> set (split_from [] t)"
      by (auto split: if_splits)
    then show ?thesis
    proof
      assume "x = w \<and> w \<noteq> []"
      with Cons.prems(1) show ?thesis by (simp add: wordlike_def)
    next
      assume "x \<in> set (split_from [] t)"
      then show ?thesis using Cons.IH[of "[]"] by simp
    qed
  next
    case False
    with Cons.prems have "x \<in> set (split_from (w @ [a]) t)" by simp
    moreover have "\<forall>c\<in>set (w @ [a]). \<not> is_space c" using Cons.prems(1) False by simp
    ultimately show ?thesis using Cons.IH[of "w @ [a]"] by blast
  qed
qed

lemma py_split_wordlike: "x \<in> set (py_split t) \<Longrightarrow> wordlike x"
  unfolding py_split_def by (rule split_from_wordlike[of "[]"]) simp_all

lemma split_from_segment:
  "(\<forall>c\<in>set u. \<not> is_space c) \<Longrightarrow> split_from w (u @ t) = split_from (w @ u) t"
  by (induction u arbitrary: w) simp_all

lemma space_is_space: "is_space CHR '' ''"
  by (simp add: is_space_def)

lemma py_split_join:
  "(\<forall>w\<in>set ws. wordlike w) \<Longrightarrow> py_split (py_join '' '' ws) = ws"
proof (induction "'' ''" ws rule: py_join.induct)
  case 1
  show ?case by (simp add: py_split_def)
next
  case (2 x)
  then have "wordlike x" by simp
  then show ?case
    using split_from_segment[of x "[]" "[]"] by (simp add: py_split_def wordlike_def)
next
  case (3 x y ys)
  then have x: "wordlike x" and rest: "\<forall>w\<in>set (y # ys). wordlike w" by simp_all
  have "split_from [] (x @ CHR '' '' # py_join '' '' (y # ys))
          = split_from x (CHR '' '' # py_join '' '' (y # ys))"
    using x split_from_segment[of x "[]"] by (simp add: wordlike_def)
  also have "\<dots> = x # split_from [] (py_join '' '' (y # ys))"
    using x by (simp add: space_is_space wordlike_def)
  finally show ?case
    using "3.hyps" rest by (simp add: py_split_def)
qed

lemma py_join_nonempty:
  "ws \<noteq> [] \<Longrightarrow> hd ws \<noteq> [] \<Longrightarrow> py_join sep ws \<noteq> []"
  by (induction sep ws rule: py_join.induct) simp_all

lemma slice_window:
  "i \<le> length xs \<Longrightarrow> 0 \<le> cs \<Longrightarrow> py_slice xs (int i) (int i + cs) = take (nat cs) (drop i xs)"
  by (auto simp: py_slice_def slice_index_def Let_def nat_add_distrib)

lemma range_len_pos:
  "0 < step \<Longrightarrow> range_len 0 (int n) step = (if n = 0 then 0 else (n - 1) div nat step + 1)"
proof (cases "n = 0")
  case True
  then show ?thesis by (simp add: range_len_def)
next
  case False
  assume step: "0 < step"
  from False have "int n - 1 = int (n - 1)" by simp
  moreover have "step = int (nat step)" using step by simp
  ultimately have "(int n - 1) div step = int ((n - 1) div nat step)"
    by (metis zdiv_int)
  then show ?thesis using False step by (simp add: range_len_def)
qed

lemma py_range_pos:
  assumes "0 < step"
  shows "py_range 0 (int n) step =
           map (\<lambda>k. int (k * nat step)) [0..<(if n = 0 then 0 else (n - 1) div nat step + 1)]"
  using assms by (simp add: py_range_def range_len_pos)

lemma window_start_in_range:
  assumes "0 < s" "n \<noteq> 0" "k < (n - 1) div s + 1"
  shows "k * s < (n::nat)"
proof -
  from assms(3) have "k \<le> (n - 1) div s" by simp
  then have "k * s \<le> ((n - 1) div s) * s" by simp
  also have "\<dots> \<le> n - 1" by simp
  finally show ?thesis using assms(2) by simp
qed

lemma window_roundtrip:
  "py_split (py_join '' '' (take c (drop i (py_split t)))) = take c (drop i (py_split t))"
proof (rule py_split_join)
  show "\<forall>w\<in>set (take c (drop i (py_split t))). wordlike w"
    by (meson in_set_takeD in_set_dropD py_split_wordlike)
qed

lemma chunk_text_windows:
  assumes "0 < cs" and "ov < cs"
  shows "chunk_text t cs ov =
           Inr (map (\<lambda>k. py_join '' '' (take (nat cs) (drop (k * nat (cs - ov)) (py_split t))))
                  [0..<window_count (length (py_split t)) (nat (cs - ov))])"
proof -
  let ?ws = "py_split t"
  let ?n = "length ?ws"
  let ?s = "nat (cs - ov)"
  let ?m = "window_count ?n ?s"
  let ?f = "\<lambda>i. py_join '' '' (py_slice ?ws i (i + cs))"
  let ?g = "\<lambda>k. py_join '' '' (take (nat cs) (drop (k * ?s) ?ws))"
  have step: "0 < cs - ov" and s: "0 < ?s" using assms by simp_all
  have start: "k * ?s < ?n" if "k < ?m" for k
    using that s window_start_in_range[of ?s ?n k]
    by (cases "?n = 0") (simp_all add: window_count_def)
  have "map ?f (py_range 0 (int ?n) (cs - ov)) = map (\<lambda>k. ?f (int (k * ?s))) [0..<?m]"
    by (simp add: py_range_pos[OF step] window_count_def comp_def)
  also have "\<dots> = map ?g [0..<?m]"
  proof (rule map_cong[OF refl])
    fix k assume "k \<in> set [0..<?m]"
    then have "k * ?s \<le> ?n" using start[of k] by simp
    then show "?f (int (k * ?s)) = ?g k"
      using assms(1) slice_window[of "k * ?s" ?ws cs] by simp
  qed
  finally have eq: "map ?f (py_range 0 (int ?n) (cs - ov)) = map ?g [0..<?m]" .
  have ne: "?g k \<noteq> []" if "k < ?m" for k
  proof (rule py_join_nonempty)
    have lt: "k * ?s < ?n" using start[OF that] .
    then show nonempty: "take (nat cs) (drop (k * ?s) ?ws) \<noteq> []"
      using assms(1) by simp
    have "hd (take (nat cs) (drop (k * ?s) ?ws)) \<in> set ?ws"
      using nonempty by (meson hd_in_set in_set_takeD in_set_dropD)
    then show "hd (take (nat cs) (drop (k * ?s) ?ws)) \<noteq> []"
      using py_split_wordlike by (auto simp: wordlike_def)
  qed
  have "filter (\<lambda>c. c \<noteq> []) (map ?g [0..<?m]) = map ?g [0..<?m]"
    using ne by (simp add: filter_id_conv)
  then show ?thesis
    using step by (simp add: chunk_text_def Let_def chunk_loop_filter_map eq)
qed

lemma py_split_repeated_word:
  "py_split (concat (replicate n ''w '')) = replicate n ''w''"
proof -
  have "split_from [] (concat (replicate n ''w '')) = replicate n ''w''"
    by (induction n) (simp_all add: is_space_def)
  then show ?thesis by (simp add: py_split_def)
qed

lemma nth_window:
  assumes "K \<le> j" and "j < length ws" and "j - K < c"
  shows "j - K < length (take c (drop K ws))" and "take c (drop K ws) ! (j - K) = ws ! j"
  using assms by auto

text \<open>
  C2: for every text and every configuration with \<open>0 < chunk_size\<close> and
  \<open>0 \<le> overlap < chunk_size\<close> the chunker returns, the \<open>k\<close>-th chunk holds exactly the
  words of the window that starts at word index \<open>k * (chunk_size - overlap)\<close> and is
  \<open>chunk_size\<close> words wide (so chunks follow the source order), and every word of the
  text lies in one of these windows.  For 1200 words with 500 and 50 there are three
  chunks, starting at the words 0, 450 and 900, each of at most 500 words.
\<close>

theorem chunk_text_covers_input:
  assumes "0 < chunk_size" and "0 \<le> overlap" and "overlap < chunk_size"
  shows "\<exists>chunks. chunk_text text chunk_size overlap = Inr chunks \<and>
     (\<forall>k<length chunks. py_split (chunks ! k) =
        take (nat chunk_size) (drop (k * nat (chunk_size - overlap)) (py_split text))) \<and>
     (\<forall>j<length (py_split text). \<exists>k<length chunks.
        k * nat (chunk_size - overlap) \<le> j \<and> j < k * nat (chunk_size - overlap) + nat chunk_size \<and>
        j - k * nat (chunk_size - overlap) < length (py_split (chunks ! k)) \<and>
        py_split (chunks ! k) ! (j - k * nat (chunk_size - overlap)) = py_split text ! j) \<and>
     (length (py_split text) = 1200 \<and> chunk_size = 500 \<and> overlap = 50 \<longrightarrow>
        length chunks = 3 \<and>
        py_split (chunks ! 0) = take 500 (drop 0 (py_split text)) \<and>
        py_split (chunks ! 1) = take 500 (drop 450 (py_split text)) \<and>
        py_split (chunks ! 2) = take 500 (drop 900 (py_split text)) \<and>
        (\<forall>c\<in>set chunks. length (py_split c) \<le> 500))"
proof -
  let ?ws = "py_split text"
  let ?n = "length ?ws"
  let ?s = "nat (chunk_size - overlap)"
  let ?c = "nat chunk_size"
  let ?m = "window_count ?n ?s"
  let ?g = "\<lambda>k. py_join '' '' (take ?c (drop (k * ?s) ?ws))"
  let ?chunks = "map ?g [0..<?m]"
  have s: "0 < ?s" and sc: "?s \<le> ?c" using assms by simp_all
  have run: "chunk_text text chunk_size overlap = Inr ?chunks"
    using chunk_text_windows[OF assms(1,3)] .
  have len: "length ?chunks = ?m" by simp
  have win: "py_split (?chunks ! k) = take ?c (drop (k * ?s) ?ws)" if "k < ?m" for k
    using that by (simp add: window_roundtrip)
  have cover: "\<exists>k<?m. k * ?s \<le> j \<and> j < k * ?s + ?c \<and>
                 j - k * ?s < length (py_split (?chunks ! k)) \<and>
                 py_split (?chunks ! k) ! (j - k * ?s) = ?ws ! j" if j: "j < ?n" for j
  proof -
    let ?k = "j div ?s"
    have "j \<le> ?n - 1" using j by simp
    then have "?k \<le> (?n - 1) div ?s" by (rule div_le_mono)
    then have k: "?k < ?m" using j by (auto simp: window_count_def)
    have lo: "?k * ?s \<le> j" by simp
    have "j < ?k * ?s + ?s" using s by (metis div_mult_mod_eq mod_less_divisor nat_add_left_cancel_less)
    then have hi: "j - ?k * ?s < ?c" and hi': "j < ?k * ?s + ?c" using sc lo by linarith+
    have inside: "j - ?k * ?s < length (take ?c (drop (?k * ?s) ?ws))"
      using nth_window(1)[OF lo j hi] .
    have "take ?c (drop (?k * ?s) ?ws) ! (j - ?k * ?s) = ?ws ! j"
      using nth_window(2)[OF lo j hi] .
    then show ?thesis using k lo hi' inside win[OF k] by metis
  qed
  have scen: "?m = 3 \<and> (\<forall>c\<in>set ?chunks. length (py_split c) \<le> 500)"
    if "?n = 1200" "chunk_size = 500" "overlap = 50"
  proof
    show "?m = 3" using that by (simp add: window_count_def)
    show "\<forall>c\<in>set ?chunks. length (py_split c) \<le> 500"
      using that by (auto simp: window_roundtrip)
  qed
  have scen_windows: "py_split (?chunks ! k) = take 500 (drop (k * 450) ?ws)"
    if "?n = 1200" "chunk_size = 500" "overlap = 50" "k < 3" for k
  proof -
    have "k < ?m" using that by (simp add: window_count_def)
    from win[OF this] show ?thesis using that by simp
  qed
  show ?thesis
  proof (intro exI conjI)
    show "chunk_text text chunk_size overlap = Inr ?chunks" by (rule run)
    show "\<forall>k<length ?chunks. py_split (?chunks ! k) = take ?c (drop (k * ?s) ?ws)"
      using win len by (metis (no_types, lifting))
    show "\<forall>j<?n. \<exists>k<length ?chunks. k * ?s \<le> j \<and> j < k * ?s + ?c \<and>
            j - k * ?s < length (py_split (?chunks ! k)) \<and>
            py_split (?chunks ! k) ! (j - k * ?s) = ?ws ! j"
      using cover len by (metis (no_types, lifting))
    show "?n = 1200 \<and> chunk_size = 500 \<and> overlap = 50 \<longrightarrow>
        length ?chunks = 3 \<and>
        py_split (?chunks ! 0) = take 500 (drop 0 ?ws) \<and>
        py_split (?chunks ! 1) = take 500 (drop 450 ?ws) \<and>
        py_split (?chunks ! 2) = take 500 (drop 900 ?ws) \<and>
        (\<forall>c\<in>set ?chunks. length (py_split c) \<le> 500)"
    proof (intro impI conjI)
      assume a: "?n = 1200 \<and> chunk_size = 500 \<and> overlap = 50"
      then show "length ?chunks = 3" using scen len by metis
      show "py_split (?chunks ! 0) = take 500 (drop 0 ?ws)"
        using a scen_windows[of 0] by simp
      show "py_split (?chunks ! 1) = take 500 (drop 450 ?ws)"
        using a scen_windows[of 1] by simp
      show "py_split (?chunks ! 2) = take 500 (drop 900 ?ws)"
        using a scen_windows[of 2] by simp
      show "\<forall>c\<in>set ?chunks. length (py_split c) \<le> 500"
        using a scen by blast
    qed
  qed
qed

theorem chunk_text_covers_input_witness:
  "\<exists>chunks. chunk_text (concat (replicate 1200 ''w '')) 500 50 = Inr chunks \<and>
     length chunks = 3 \<and>
     py_split (chunks ! 0) = replicate 500 ''w'' \<and>
     py_split (chunks ! 1) = replicate 500 ''w'' \<and>
     py_split (chunks ! 2) = replicate 300 ''w'' \<and>
     (\<exists>k<3::nat. k * 450 \<le> 1199 \<and> 1199 < k * 450 + 500)"
proof -
  let ?t = "concat (replicate 1200 ''w '')"
  have n: "length (py_split ?t) = 1200" by (simp add: py_split_repeated_word)
  obtain chunks where run: "chunk_text ?t 500 50 = Inr chunks"
    and win: "\<forall>k<length chunks. py_split (chunks ! k) =
        take (nat 500) (drop (k * nat (500 - 50)) (py_split ?t))"
    and cov: "\<forall>j<length (py_split ?t). \<exists>k<length chunks.
        k * nat (500 - 50) \<le> j \<and> j < k * nat (500 - 50) + nat 500 \<and>
        j - k * nat (500 - 50) < length (py_split (chunks ! k)) \<and>
        py_split (chunks ! k) ! (j - k * nat (500 - 50)) = py_split ?t ! j"
    and scen: "length (py_split ?t) = 1200 \<and> (500::int) = 500 \<and> (50::int) = 50 \<longrightarrow>
        length chunks = 3 \<and>
        py_split (chunks ! 0) = take 500 (drop 0 (py_split ?t)) \<and>
        py_split (chunks ! 1) = take 500 (drop 450 (py_split ?t)) \<and>
        py_split (chunks ! 2) = take 500 (drop 900 (py_split ?t)) \<and>
        (\<forall>c\<in>set chunks. length (py_split c) \<le> 500)"
    using chunk_text_covers_input[of 500 50 ?t] by auto
  from scen n have three: "length chunks = 3"
    and c0: "py_split (chunks ! 0) = take 500 (drop 0 (py_split ?t))"
    and c1: "py_split (chunks ! 1) = take 500 (drop 450 (py_split ?t))"
    and c2: "py_split (chunks ! 2) = take 500 (drop 900 (py_split ?t))"
    by simp_all
  have "1199 < length (py_split ?t)" using n by simp
  with cov three have "\<exists>k<3::nat. k * nat (500 - 50) \<le> 1199 \<and> 1199 < k * nat (500 - 50) + nat 500"
    by metis
  then have "\<exists>k<3::nat. k * 450 \<le> 1199 \<and> 1199 < k * 450 + 500"
    by simp
  then show ?thesis
    using run three c0 c1 c2 by (simp add: py_split_repeated_word)
qed

lemma split_from_blank:
  "\<forall>c\<in>set t. is_space c \<Longrightarrow> split_from [] t = []"
  by (induction t) simp_all

lemma py_split_blank: "\<forall>c\<in>set t. is_space c \<Longrightarrow> py_split t = []"
  by (simp add: py_split_def split_from_blank)

lemma py_range_empty: "py_range 0 0 step = []"
  by (simp add: py_range_def range_len_def)

lemma py_range_negative_step: "step < 0 \<Longrightarrow> py_range 0 (int n) step = []"
  by (simp add: py_range_def range_len_def)

lemma chunk_text_error_iff:
  "(\<exists>e. chunk_text t cs ov = Inl e) \<longleftrightarrow> ov = cs"
  by (auto simp: chunk_text_def Let_def)

text \<open>
  C3, as stated, fails: five words with \<open>chunk_size = 4\<close> and \<open>overlap = 2\<close> give three
  chunks (more words than \<open>chunk_size\<close>), and the last two words of the second chunk are
  not the first two words of the third, which has a single word.
\<close>

theorem chunk_overlap_counterexample:
  "length (py_split ''a b c d e'') = 5 \<and>
   chunk_text ''a b c d e'' 4 2 = Inr [''a b c d'', ''c d e'', ''e''] \<and>
   drop (length (py_split ''c d e'') - 2) (py_split ''c d e'') = [''d'', ''e''] \<and>
   take 2 (py_split ''e'') = [''e''] \<and>
   drop (length (py_split ''c d e'') - 2) (py_split ''c d e'') \<noteq> take 2 (py_split ''e'')"
  by code_simp

text \<open>
  C3, amended: with a valid configuration, two consecutive chunks share exactly
  \<open>overlap\<close> words (the last \<open>overlap\<close> words of the first are the first \<open>overlap\<close> words
  of the second) whenever the first of the two has the full \<open>chunk_size\<close> words.  When
  the end of the text cuts the first one short, the second is what remains of the first
  after \<open>chunk_size - overlap\<close> words, fewer than \<open>overlap\<close> words.
\<close>

theorem consecutive_chunks_overlap:
  assumes "0 < chunk_size" and "0 \<le> overlap" and "overlap < chunk_size"
    and "chunk_text text chunk_size overlap = Inr chunks"
    and "k + 1 < length chunks"
  shows "(length (py_split (chunks ! k)) = nat chunk_size \<longrightarrow>
            drop (length (py_split (chunks ! k)) - nat overlap) (py_split (chunks ! k))
              = take (nat overlap) (py_split (chunks ! (k + 1))) \<and>
            length (take (nat overlap) (py_split (chunks ! (k + 1)))) = nat overlap) \<and>
         (length (py_split (chunks ! k)) < nat chunk_size \<longrightarrow>
            py_split (chunks ! (k + 1)) = drop (nat (chunk_size - overlap)) (py_split (chunks ! k)) \<and>
            length (py_split (chunks ! (k + 1))) < nat overlap)"
proof -
  let ?ws = "py_split text"
  let ?n = "length ?ws"
  let ?s = "nat (chunk_size - overlap)"
  let ?c = "nat chunk_size"
  let ?o = "nat overlap"
  let ?m = "window_count ?n ?s"
  let ?g = "\<lambda>k. py_join '' '' (take ?c (drop (k * ?s) ?ws))"
  define K where "K = k * ?s"
  have s: "0 < ?s" and co: "?c = ?s + ?o" using assms(1-3) by simp_all
  have chunks: "chunks = map ?g [0..<?m]"
    using chunk_text_windows[OF assms(1,3), of "text"] assms(4) by simp
  then have m: "k + 1 < ?m" using assms(5) by simp
  have wk: "py_split (chunks ! k) = take ?c (drop K ?ws)"
    using m by (simp add: chunks window_roundtrip K_def)
  have wk1: "py_split (chunks ! (k + 1)) = take ?c (drop (K + ?s) ?ws)"
    using m by (simp add: chunks window_roundtrip K_def add.commute)
  have "?n \<noteq> 0" using m by (auto simp: window_count_def)
  then have "(k + 1) * ?s < ?n"
    using m s window_start_in_range[of ?s ?n "k + 1"] by (simp add: window_count_def)
  then have next_start: "K + ?s < ?n" by (simp add: K_def)
  have full: "drop (length (py_split (chunks ! k)) - ?o) (py_split (chunks ! k))
                = take ?o (py_split (chunks ! (k + 1))) \<and>
              length (take ?o (py_split (chunks ! (k + 1)))) = ?o"
    if "length (py_split (chunks ! k)) = ?c"
  proof -
    from that wk assms(1) have fits: "K + ?c \<le> ?n"
      by (auto simp: min_def split: if_splits)
    have "drop (?c - ?o) (take ?c (drop K ?ws)) = take ?o (drop (K + ?s) ?ws)"
      using co by (simp add: drop_take add.commute)
    moreover have "take ?o (take ?c (drop (K + ?s) ?ws)) = take ?o (drop (K + ?s) ?ws)"
      using co by (simp add: min_def)
    moreover have "length (take ?o (drop (K + ?s) ?ws)) = ?o"
      using fits co by simp
    ultimately show ?thesis using that wk wk1 by simp
  qed
  have short: "py_split (chunks ! (k + 1)) = drop ?s (py_split (chunks ! k)) \<and>
               length (py_split (chunks ! (k + 1))) < ?o"
    if "length (py_split (chunks ! k)) < ?c"
  proof -
    from that wk have cut: "?n < K + ?c"
      by (auto simp: min_def split: if_splits)
    then have "take ?c (drop K ?ws) = drop K ?ws" by simp
    moreover have "take ?c (drop (K + ?s) ?ws) = drop (K + ?s) ?ws" using cut by simp
    moreover have "?n - (K + ?s) < ?o" using cut co next_start by linarith
    ultimately show ?thesis using wk wk1 by (simp add: add.commute)
  qed
  show ?thesis using full short by blast
qed

theorem consecutive_chunks_overlap_witness:
  "chunk_text ''a b c d e'' 4 2 = Inr [''a b c d'', ''c d e'', ''e''] \<and>
   drop (4 - 2) (py_split ''a b c d'') = take 2 (py_split ''c d e'') \<and>
   py_split ''e'' = drop 2 (py_split ''c d e'')"
proof -
  have run: "chunk_text ''a b c d e'' 4 2 = Inr [''a b c d'', ''c d e'', ''e'']"
    by code_simp
  have w0: "py_split ''a b c d'' = [''a'', ''b'', ''c'', ''d'']"
    and w1: "py_split ''c d e'' = [''c'', ''d'', ''e'']" by code_simp+
  have "drop (length (py_split ''a b c d'') - nat 2) (py_split ''a b c d'')
          = take (nat 2) (py_split ''c d e'')"
    using consecutive_chunks_overlap[of 4 2 "''a b c d e''" "[''a b c d'', ''c d e'', ''e'']" 0]
      run w0 by simp
  moreover have "py_split ''e'' = drop (nat (4 - 2)) (py_split ''c d e'')"
    using consecutive_chunks_overlap[of 4 2 "''a b c d e''" "[''a b c d'', ''c d e'', ''e'']" 1]
      run w1 by simp
  ultimately show ?thesis using run w0 by simp
qed

text \<open>
  C10: whatever the arguments, every chunk the chunker returns is a non-empty string;
  for a text that is empty or holds only whitespace it returns no chunk at all (for
  every stride \<open>chunk_size - overlap\<close> that \<open>range\<close> accepts, the defaults among them).
\<close>

theorem chunks_are_nonempty:
  "(chunk_text text chunk_size overlap = Inr chunks \<longrightarrow> (\<forall>c\<in>set chunks. c \<noteq> [])) \<and>
   ((\<forall>c\<in>set text. is_space c) \<and> chunk_size \<noteq> overlap \<longrightarrow>
      chunk_text text chunk_size overlap = Inr [])"
  by (auto simp: chunk_text_def Let_def chunk_loop_filter_map py_split_blank py_range_empty
           split: if_splits)

theorem chunks_are_nonempty_witness:
  "chunk_text ''a b c'' 2 1 = Inr [''a b'', ''b c'', ''c''] \<and>
   ''a b'' \<noteq> [] \<and> ''b c'' \<noteq> [] \<and> ''c'' \<noteq> [] \<and>
   chunk_text [CHR '' '', CHR 0x0A, CHR 0x09] 500 50 = Inr []"
proof -
  have run: "chunk_text ''a b c'' 2 1 = Inr [''a b'', ''b c'', ''c'']" by code_simp
  have blank: "\<forall>c\<in>set [CHR '' '', CHR 0x0A, CHR 0x09]. is_space c"
    by (simp add: is_space_def)
  show ?thesis
    using chunks_are_nonempty[of "''a b c''" 2 1 "[''a b'', ''b c'', ''c'']"]
      chunks_are_nonempty[of "[CHR '' '', CHR 0x0A, CHR 0x09]" 500 50 "[]"] run blank
    by simp
qed

text \<open>
  C4, as stated, fails: with \<open>overlap > chunk_size\<close> the chunker returns the empty list,
  and with a negative \<open>chunk_size\<close> above a smaller \<open>overlap\<close> it returns a chunk; neither
  call raises.
\<close>

theorem chunk_text_config_counterexample:
  "chunk_text ''a b c'' 2 3 = Inr [] \<and> chunk_text ''a b c'' (- 1) (- 2) = Inr [''a b'']"
  by code_simp

lemma default_chunking_returns:
  "\<exists>chunks. chunk_text t 500 50 = Inr chunks"
  using chunk_text_windows[of 500 50] by simp

lemma index_pdf_at_startup:
  assumes "collection self = []"
  shows "\<exists>chunks. chunk_text (extract_text_from_pdf ps) 500 50 = Inr chunks \<and>
           index_pdf self reply (Inr ps) add =
             (case add [] (chunk_entries self chunks) of
                Inl e \<Rightarrow> Inl e
              | Inr stored \<Rightarrow> Inr (self\<lparr>collection := stored\<rparr>))"
proof -
  obtain chunks where c: "chunk_text (extract_text_from_pdf ps) 500 50 = Inr chunks"
    using default_chunking_returns by blast
  then have "index_pdf self reply (Inr ps) add =
             (case add [] (chunk_entries self chunks) of
                Inl e \<Rightarrow> Inl e
              | Inr stored \<Rightarrow> Inr (self\<lparr>collection := stored\<rparr>))"
    using assms by (simp add: index_pdf_def Let_def)
  with c show ?thesis by blast
qed

text \<open>
  C4, amended: the chunker fails exactly when \<open>overlap = chunk_size\<close>, with the
  \<open>ValueError\<close> of \<open>range\<close> for a zero step; with \<open>overlap > chunk_size\<close> it returns the
  empty list, and in every other case it returns a list too.  At startup, where the
  collection is empty, \<open>index_pdf\<close> calls it with 500 and 50 on the extracted text, gets
  its chunks and hands one entry per chunk to \<open>collection.add\<close>, whose outcome is the
  outcome of indexing: no error of the chunker arises there.
\<close>

theorem chunk_text_fails_only_on_zero_stride:
  "((\<exists>e. chunk_text text chunk_size overlap = Inl e) \<longleftrightarrow> overlap = chunk_size) \<and>
   (overlap = chunk_size \<longrightarrow>
      chunk_text text chunk_size overlap = Inl (ValueError ''range() arg 3 must not be zero'')) \<and>
   (chunk_size < overlap \<longrightarrow> chunk_text text chunk_size overlap = Inr []) \<and>
   (collection self = [] \<longrightarrow>
      (\<exists>chunks. chunk_text (extract_text_from_pdf ps) 500 50 = Inr chunks \<and>
         index_pdf self reply (Inr ps) add =
           (case add [] (chunk_entries self chunks) of
              Inl e \<Rightarrow> Inl e
            | Inr stored \<Rightarrow> Inr (self\<lparr>collection := stored\<rparr>))))"
proof (intro conjI)
  show "(\<exists>e. chunk_text text chunk_size overlap = Inl e) \<longleftrightarrow> overlap = chunk_size"
    by (rule chunk_text_error_iff)
  show "overlap = chunk_size \<longrightarrow>
      chunk_text text chunk_size overlap = Inl (ValueError ''range() arg 3 must not be zero'')"
    by (simp add: chunk_text_def)
  show "chunk_size < overlap \<longrightarrow> chunk_text text chunk_size overlap = Inr []"
    by (simp add: chunk_text_def Let_def py_range_negative_step)
  show "collection self = [] \<longrightarrow>
      (\<exists>chunks. chunk_text (extract_text_from_pdf ps) 500 50 = Inr chunks \<and>
         index_pdf self reply (Inr ps) add =
           (case add [] (chunk_entries self chunks) of
              Inl e \<Rightarrow> Inl e
            | Inr stored \<Rightarrow> Inr (self\<lparr>collection := stored\<rparr>)))"
    using index_pdf_at_startup by blast
qed

theorem chunk_text_fails_only_on_zero_stride_witness:
  "chunk_text ''a b c'' 2 2 = Inl (ValueError ''range() arg 3 must not be zero'') \<and>
   chunk_text ''a b c'' 2 3 = Inr [] \<and>
   index_pdf example_app ''y'' (Inr [''some page text'']) strict_add =
     Inr (example_app\<lparr>collection :=
            [\<lparr>entry_id = ''chunk_0'', document = ''--- Page 1 --- some page text'',
              chunk_id = 0, source = ''paper.pdf''\<rparr>]\<rparr>) \<and>
   index_pdf example_app ''y'' (Inr []) strict_add =
     Inl (ValueError ''Expected IDs to be a non-empty list'')"
proof -
  have empty: "collection example_app = []" by (simp add: example_app_def)
  have c1: "chunk_text (extract_text_from_pdf [''some page text'']) 500 50
              = Inr [''--- Page 1 --- some page text'']"
    and c0: "chunk_text (extract_text_from_pdf []) 500 50 = Inr []"
    by code_simp+
  have e1: "chunk_entries example_app [''--- Page 1 --- some page text''] =
              [\<lparr>entry_id = ''chunk_0'', document = ''--- Page 1 --- some page text'',
                chunk_id = 0, source = ''paper.pdf''\<rparr>]"
    and e0: "chunk_entries example_app [] = []"
    by code_simp+
  have one: "index_pdf example_app ''y'' (Inr [''some page text'']) strict_add =
     Inr (example_app\<lparr>collection :=
            [\<lparr>entry_id = ''chunk_0'', document = ''--- Page 1 --- some page text'',
              chunk_id = 0, source = ''paper.pdf''\<rparr>]\<rparr>)"
    using chunk_text_fails_only_on_zero_stride[of "''a b c''" 2 2 example_app
            "[''some page text'']" "''y''" strict_add] empty c1 e1
    by (auto simp: strict_add_def)
  have none: "index_pdf example_app ''y'' (Inr []) strict_add =
     Inl (ValueError ''Expected IDs to be a non-empty list'')"
    using chunk_text_fails_only_on_zero_stride[of "''a b c''" 2 3 example_app
            "[]" "''y''" strict_add] empty c0 e0
    by (auto simp: strict_add_def)
  show ?thesis
    using chunk_text_fails_only_on_zero_stride[of "''a b c''" 2 2 example_app "[]" "''y''" strict_add]
      chunk_text_fails_only_on_zero_stride[of "''a b c''" 2 3 example_app "[]" "''y''" strict_add]
      one none
    by simp
qed

section \<open>Properties of answering and logging\<close>

lemma build_without_info:
  "\<exists>data. build_log_data self q a cl pl None s = Inr data \<and>
          response data = a \<and> question data = q \<and> token_details data = None \<and>
          context_length_chars (metadata data) = cl \<and> prompt_length_chars (metadata data) = pl"
  by (simp add: build_log_data_def)

lemma save_without_info:
  "\<exists>data. save_query_log self q a cl pl None t s
            = Inr (self\<lparr>writes := writes self @ [(log_file_name self t, data)]\<rparr>) \<and>
          response data = a \<and> question data = q \<and> token_details data = None \<and>
          context_length_chars (metadata data) = cl \<and> prompt_length_chars (metadata data) = pl"
proof -
  obtain data where "build_log_data self q a cl pl None s = Inr data"
    and "response data = a" and "question data = q" and "token_details data = None"
    and "context_length_chars (metadata data) = cl" and "prompt_length_chars (metadata data) = pl"
    using build_without_info by blast
  then show ?thesis by (auto simp: save_query_log_def write_log_file_def)
qed

lemma save_result:
  assumes "save_query_log self q a cl pl info t s = Inr self'"
  shows "\<exists>data. self' = self\<lparr>writes := writes self @ [(log_file_name self t, data)]\<rparr> \<and>
          response data = a \<and> question data = q \<and>
          context_length_chars (metadata data) = cl \<and> prompt_length_chars (metadata data) = pl"
  using assms
  by (auto simp: save_query_log_def build_log_data_def write_log_file_def Let_def
           split: sum.splits option.splits)

lemma save_with_details:
  assumes "token_details_of i = Inr d"
  shows "\<exists>self'. save_query_log self q a cl pl (Some i) t s = Inr self'"
  using assms by (simp add: save_query_log_def build_log_data_def)

lemma except_branch_logs:
  "\<exists>data. except_branch self q cl pl e t s
            = Inr (''Error querying model: '' @ str_of_error e,
                   self\<lparr>writes := writes self @ [(log_file_name self t, data)]\<rparr>) \<and>
          response data = ''Error querying model: '' @ str_of_error e \<and>
          question data = q \<and> token_details data = None \<and>
          context_length_chars (metadata data) = cl \<and> prompt_length_chars (metadata data) = pl"
proof -
  obtain data where
    "save_query_log self q (''Error querying model: '' @ str_of_error e) cl pl None t s
       = Inr (self\<lparr>writes := writes self @ [(log_file_name self t, data)]\<rparr>)"
    and "response data = ''Error querying model: '' @ str_of_error e"
    and "question data = q" and "token_details data = None"
    and "context_length_chars (metadata data) = cl" and "prompt_length_chars (metadata data) = pl"
    using save_without_info by blast
  then show ?thesis by (auto simp: except_branch_def Let_def)
qed

lemma query_returns:
  assumes "retrieve (collection self) q n = Inr docs"
  shows "\<exists>answer entry. query q n self retrieve chat t1 t2 t3 t4
           = Inr (answer, self\<lparr>writes := writes self @ [entry]\<rparr>)"
proof -
  let ?cl = "length (py_join (NL @ NL) docs)"
  let ?p = "build_prompt (py_join (NL @ NL) docs) q"
  have handled: "\<exists>answer entry. except_branch self q ?cl (length ?p) e t s
           = Inr (answer, self\<lparr>writes := writes self @ [entry]\<rparr>)" for e t s
    using except_branch_logs[of self q ?cl "length ?p" e t s] by blast
  show ?thesis
  proof (cases "chat (model self) ?p")
    case (Inl e)
    then show ?thesis using assms handled[of e t1 t2] by (simp add: query_def Let_def)
  next
    case (Inr reply)
    show ?thesis
    proof (cases "content reply")
      case (Inl e)
      then show ?thesis using assms Inr handled[of e t1 t2] by (simp add: query_def Let_def)
    next
      case answer: (Inr answer)
      show ?thesis
      proof (cases "save_query_log self q answer ?cl (length ?p) (Some (token_info_of reply)) t1 t2")
        case (Inl e)
        then show ?thesis
          using assms Inr answer handled[of e t3 t4] by (simp add: query_def Let_def)
      next
        case saved: (Inr self')
        from save_result[OF saved] obtain data where
          "self' = self\<lparr>writes := writes self @ [(log_file_name self t1, data)]\<rparr>" by blast
        then show ?thesis
          using assms Inr answer saved by (auto simp: query_def Let_def)
      qed
    qed
  qed
qed

lemma query_result:
  assumes "query q n self retrieve chat t1 t2 t3 t4 = Inr (answer, self')"
  shows "\<exists>entry. self' = self\<lparr>writes := writes self @ [entry]\<rparr>"
proof (cases "retrieve (collection self) q n")
  case (Inl e)
  then show ?thesis using assms by (simp add: query_def)
next
  case (Inr docs)
  from query_returns[of retrieve self q n docs chat t1 t2 t3 t4] Inr assms
  show ?thesis by auto
qed

lemma query_raises:
  assumes "retrieve (collection self) q n = Inl e"
  shows "query q n self retrieve chat t1 t2 t3 t4 = Inl e"
  using assms by (simp add: query_def)

text \<open>
  C1, as stated, fails: a call of \<open>query\<close> whose retrieval raises writes no record; the
  exception leaves \<open>query\<close>, and after the turn of the session the log is still empty.
\<close>

theorem query_without_log_counterexample:
  "query ''why?'' 5 example_app failing_retriever echo_backend
     example_time example_time example_time example_time = Inl (Raised ''embedding failed'') \<and>
   writes (fst (snd (run_turn example_app (Line ''why?'') failing_retriever echo_backend
     example_time example_time example_time example_time))) = []"
proof -
  have s: "strip ''why?'' = ''why?''" and l: "lower ''why?'' = ''why?''" by code_simp+
  show ?thesis
    by (simp add: query_def run_turn_def s l failing_retriever_def example_app_def)
qed

text \<open>
  C1, amended: whatever the backend does (it returns a reply or raises), a call of
  \<open>query\<close> whose retrieval returned returns with exactly one record appended to the log,
  and every call that returns has written exactly one record; a call whose retrieval
  raises ends with that exception and writes nothing.
\<close>

theorem query_writes_one_log:
  "(\<forall>docs. retrieve (collection self) q n = Inr docs \<longrightarrow>
      (\<exists>answer entry. query q n self retrieve chat t1 t2 t3 t4
         = Inr (answer, self\<lparr>writes := writes self @ [entry]\<rparr>))) \<and>
   (\<forall>answer self'. query q n self retrieve chat t1 t2 t3 t4 = Inr (answer, self') \<longrightarrow>
      (\<exists>entry. self' = self\<lparr>writes := writes self @ [entry]\<rparr>) \<and>
      length (writes self') = length (writes self) + 1) \<and>
   (\<forall>e. retrieve (collection self) q n = Inl e \<longrightarrow>
      query q n self retrieve chat t1 t2 t3 t4 = Inl e)"
  using query_returns[of retrieve self q n _ chat t1 t2 t3 t4]
    query_result[of q n self retrieve chat t1 t2 t3 t4]
    query_raises[of retrieve self q n _ chat t1 t2 t3 t4]
  by fastforce

theorem query_writes_one_log_witness:
  "(\<exists>answer entry. query ''why?'' 5 example_app two_documents echo_backend
      example_time example_time later_time later_time
      = Inr (answer, example_app\<lparr>writes := writes example_app @ [entry]\<rparr>)) \<and>
   (\<exists>answer entry. query ''why?'' 5 example_app two_documents failing_backend
      example_time example_time later_time later_time
      = Inr (answer, example_app\<lparr>writes := writes example_app @ [entry]\<rparr>)) \<and>
   (\<exists>answer entry. query ''why?'' 5 example_app two_documents unset_counter_backend
      example_time example_time later_time later_time
      = Inr (answer, example_app\<lparr>writes := writes example_app @ [entry]\<rparr>)) \<and>
   query ''why?'' 5 example_app failing_retriever echo_backend
      example_time example_time later_time later_time = Inl (Raised ''embedding failed'')"
  using query_writes_one_log[of two_documents example_app "''why?''" 5 echo_backend
          example_time example_time later_time later_time]
    query_writes_one_log[of two_documents example_app "''why?''" 5 failing_backend
          example_time example_time later_time later_time]
    query_writes_one_log[of two_documents example_app "''why?''" 5 unset_counter_backend
          example_time example_time later_time later_time]
    query_writes_one_log[of failing_retriever example_app "''why?''" 5 echo_backend
          example_time example_time later_time later_time]
  by (simp add: two_documents_def failing_retriever_def)

text \<open>
  A reply with an unset counter: the sum of the counts raises inside the first call of
  \<open>save_query_log\<close>, before anything is written; the \<open>except\<close> branch answers with the
  error text and its own call writes the one record, named from the later clock reading.
\<close>

lemma query_with_unset_counter:
  "\<exists>self'. query ''why?'' 5 example_app two_documents unset_counter_backend
             example_time example_time later_time later_time
           = Inr (''Error querying model: unsupported operand type(s) for +: '' @
                  [CHR 0x27] @ ''NoneType'' @ [CHR 0x27] @ '' and '' @
                  [CHR 0x27] @ ''int'' @ [CHR 0x27], self') \<and>
          map fst (writes self') = [log_file_name example_app later_time] \<and>
          map (token_details \<circ> snd) (writes self') = [None]"
  by (simp add: query_def two_documents_def unset_counter_backend_def token_info_of_def
        get_or_zero_def token_details_of_def save_query_log_def build_log_data_def
        except_branch_def write_log_file_def quoted_def example_app_def log_file_name_def Let_def)

text \<open>
  C5: when the backend call raises, \<open>query\<close> does not raise: it returns the non-empty
  text \<open>Error querying model: \<close> followed by the exception's message, and the one record
  it writes holds that text as the response and has no \<open>token_details\<close>.
\<close>

theorem backend_failure_logged_without_telemetry:
  assumes "retrieve (collection self) q n = Inr docs"
    and "chat (model self) (build_prompt (py_join (NL @ NL) docs) q) = Inl e"
  shows "\<exists>path data. query q n self retrieve chat t1 t2 t3 t4
            = Inr (''Error querying model: '' @ str_of_error e,
                   self\<lparr>writes := writes self @ [(path, data)]\<rparr>) \<and>
          ''Error querying model: '' @ str_of_error e \<noteq> [] \<and>
          response data = ''Error querying model: '' @ str_of_error e \<and>
          question data = q \<and>
          token_details data = None"
proof -
  let ?cl = "length (py_join (NL @ NL) docs)"
  let ?p = "build_prompt (py_join (NL @ NL) docs) q"
  have run: "query q n self retrieve chat t1 t2 t3 t4 = except_branch self q ?cl (length ?p) e t1 t2"
    using assms by (simp add: query_def Let_def)
  from except_branch_logs[of self q ?cl "length ?p" e t1 t2] run
  show ?thesis by auto
qed

theorem backend_failure_logged_without_telemetry_witness:
  "\<exists>path data. query ''why?'' 5 example_app two_documents failing_backend
        example_time example_time later_time later_time
      = Inr (''Error querying model: connection refused'',
             example_app\<lparr>writes := writes example_app @ [(path, data)]\<rparr>) \<and>
     response data = ''Error querying model: connection refused'' \<and>
     token_details data = None"
  using backend_failure_logged_without_telemetry[of two_documents example_app "''why?''" 5
          "[''first chunk'', ''second chunk'']" failing_backend "Raised ''connection refused''"
          example_time example_time later_time later_time]
  by (simp add: two_documents_def failing_backend_def) blast

text \<open>
  C6, as stated, fails: with a retriever that raises, \<open>query\<close> raises the same
  exception; it does not return what it returns when nothing is found and the context
  is empty.
\<close>

theorem retrieval_failure_counterexample:
  "query ''why?'' 5 example_app failing_retriever echo_backend
       example_time example_time later_time later_time
     = Inl (Raised ''embedding failed'') \<and>
   query ''why?'' 5 example_app failing_retriever echo_backend
       example_time example_time later_time later_time
     \<noteq> query ''why?'' 5 example_app no_documents echo_backend
       example_time example_time later_time later_time"
proof -
  have "\<exists>answer entry. query ''why?'' 5 example_app no_documents echo_backend
       example_time example_time later_time later_time
         = Inr (answer, example_app\<lparr>writes := writes example_app @ [entry]\<rparr>)"
    by (rule query_returns) (simp add: no_documents_def)
  moreover have "query ''why?'' 5 example_app failing_retriever echo_backend
       example_time example_time later_time later_time = Inl (Raised ''embedding failed'')"
    by (simp add: query_def failing_retriever_def)
  ultimately show ?thesis by auto
qed

text \<open>
  C6, amended: when the retrieval call raises, \<open>query\<close> raises the same exception,
  whatever the backend would do, and writes no record; the interactive loop prints the
  error and stays ready with its state unchanged, so the session goes on.
\<close>

theorem retrieval_failure_propagates:
  assumes "retrieve (collection self) (strip raw) 5 = Inl e"
    and "strip raw \<noteq> []"
    and "lower (strip raw) \<notin> set [''quit'', ''exit'', ''q'', ''stats'']"
  shows "query (strip raw) 5 self retrieve chat t1 t2 t3 t4 = Inl e \<and>
         run_turn self (Line raw) retrieve chat t1 t2 t3 t4
           = (Ready, self, [ErrorMessage (str_of_error e)])"
  using assms by (simp add: query_def run_turn_def Let_def)

theorem retrieval_failure_propagates_witness:
  "query ''why?'' 5 example_app failing_retriever echo_backend
       example_time example_time later_time later_time
     = Inl (Raised ''embedding failed'') \<and>
   run_turn example_app (Line '' why? '') failing_retriever echo_backend
       example_time example_time later_time later_time
     = (Ready, example_app, [ErrorMessage ''embedding failed''])"
proof -
  have s: "strip '' why? '' = ''why?''" by code_simp
  have l: "lower ''why?'' = ''why?''" by code_simp
  show ?thesis
    using retrieval_failure_propagates[of failing_retriever example_app "'' why? ''"
            "Raised ''embedding failed''" echo_backend
            example_time example_time later_time later_time]
    by (simp add: s l failing_retriever_def)
qed

lemma py_join_cons:
  "py_join sep (d # ds) = d @ concat (map (\<lambda>x. sep @ x) ds)"
  by (induction ds arbitrary: d) simp_all

lemma query_depends_on_prompt_reply:
  assumes "retrieve (collection self) q n = Inr docs"
    and "chat1 (model self) (build_prompt (py_join (NL @ NL) docs) q)
           = chat2 (model self) (build_prompt (py_join (NL @ NL) docs) q)"
  shows "query q n self retrieve chat1 t1 t2 t3 t4 = query q n self retrieve chat2 t1 t2 t3 t4"
  using assms by (simp add: query_def Let_def)

lemma query_returns_reply:
  assumes "retrieve (collection self) q n = Inr docs"
    and "chat (model self) (build_prompt (py_join (NL @ NL) docs) q) = Inr reply"
    and "content reply = Inr answer"
    and "token_details_of (token_info_of reply) = Inr details"
  shows "\<exists>path data. query q n self retrieve chat t1 t2 t3 t4
            = Inr (answer, self\<lparr>writes := writes self @ [(path, data)]\<rparr>) \<and>
          response data = answer \<and>
          context_length_chars (metadata data) = length (py_join (NL @ NL) docs) \<and>
          prompt_length_chars (metadata data)
            = length (build_prompt (py_join (NL @ NL) docs) q)"
proof -
  let ?cl = "length (py_join (NL @ NL) docs)"
  let ?p = "build_prompt (py_join (NL @ NL) docs) q"
  obtain self' where saved:
    "save_query_log self q answer ?cl (length ?p) (Some (token_info_of reply)) t1 t2 = Inr self'"
    using save_with_details[OF assms(4)] by blast
  then have run: "query q n self retrieve chat t1 t2 t3 t4 = Inr (answer, self')"
    using assms(1-3) by (simp add: query_def Let_def)
  from save_result[OF saved] run show ?thesis by auto
qed

lemma float_limit_pos: "0 < float_limit"
proof -
  have "(2::int) ^ 970 < 2 ^ 1024" by (rule power_strict_increasing) simp_all
  then show ?thesis by (simp add: float_limit_def)
qed

text \<open>
  C9: the prompt \<open>query\<close> assembles is the fixed template: an instruction line and the
  \<open>Context:\<close> block holding the retrieved documents in their ranked order, joined by a
  blank line (two line feeds); then \<open>Question: \<close> with the literal question; then the cue
  \<open>Answer:\<close>.  This prompt is what \<open>query\<close> sends to the backend: the answer returned
  and logged is the content of the backend's reply to it, the logged prompt length is
  its length, and no other value of the backend enters the result.
\<close>

theorem prompt_follows_template:
  "build_prompt (py_join (NL @ NL) docs) q =
     ''Based on the following context from the document, please answer the question.'' @
     [CHR 0x0A, CHR 0x0A] @ ''Context:'' @ [CHR 0x0A] @
     py_join [CHR 0x0A, CHR 0x0A] docs @
     [CHR 0x0A, CHR 0x0A] @ ''Question: '' @ q @
     [CHR 0x0A, CHR 0x0A] @ ''Answer:'' \<and>
   py_join [CHR 0x0A, CHR 0x0A] [] = [] \<and>
   py_join [CHR 0x0A, CHR 0x0A] (d # ds) = d @ concat (map (\<lambda>x. [CHR 0x0A, CHR 0x0A] @ x) ds) \<and>
   (retrieve (collection self) q n = Inr docs \<and>
    chat1 (model self) (build_prompt (py_join (NL @ NL) docs) q)
      = chat2 (model self) (build_prompt (py_join (NL @ NL) docs) q) \<longrightarrow>
    query q n self retrieve chat1 t1 t2 t3 t4 = query q n self retrieve chat2 t1 t2 t3 t4) \<and>
   (retrieve (collection self) q n = Inr docs \<and>
    chat1 (model self) (build_prompt (py_join (NL @ NL) docs) q) = Inr reply \<and>
    content reply = Inr answer \<and>
    token_details_of (token_info_of reply) = Inr details \<longrightarrow>
    (\<exists>path data. query q n self retrieve chat1 t1 t2 t3 t4
        = Inr (answer, self\<lparr>writes := writes self @ [(path, data)]\<rparr>) \<and>
      response data = answer \<and>
      context_length_chars (metadata data) = length (py_join (NL @ NL) docs) \<and>
      prompt_length_chars (metadata data)
        = length (build_prompt (py_join (NL @ NL) docs) q)))"
proof (intro conjI)
  show "build_prompt (py_join (NL @ NL) docs) q =
     ''Based on the following context from the document, please answer the question.'' @
     [CHR 0x0A, CHR 0x0A] @ ''Context:'' @ [CHR 0x0A] @
     py_join [CHR 0x0A, CHR 0x0A] docs @
     [CHR 0x0A, CHR 0x0A] @ ''Question: '' @ q @
     [CHR 0x0A, CHR 0x0A] @ ''Answer:''"
    by (simp add: build_prompt_def NL_def)
  show "py_join [CHR 0x0A, CHR 0x0A] [] = []" by simp
  show "py_join [CHR 0x0A, CHR 0x0A] (d # ds) = d @ concat (map (\<lambda>x. [CHR 0x0A, CHR 0x0A] @ x) ds)"
    by (rule py_join_cons)
  show "retrieve (collection self) q n = Inr docs \<and>
    chat1 (model self) (build_prompt (py_join (NL @ NL) docs) q)
      = chat2 (model self) (build_prompt (py_join (NL @ NL) docs) q) \<longrightarrow>
    query q n self retrieve chat1 t1 t2 t3 t4 = query q n self retrieve chat2 t1 t2 t3 t4"
    using query_depends_on_prompt_reply by blast
  show "retrieve (collection self) q n = Inr docs \<and>
    chat1 (model self) (build_prompt (py_join (NL @ NL) docs) q) = Inr reply \<and>
    content reply = Inr answer \<and>
    token_details_of (token_info_of reply) = Inr details \<longrightarrow>
    (\<exists>path data. query q n self retrieve chat1 t1 t2 t3 t4
        = Inr (answer, self\<lparr>writes := writes self @ [(path, data)]\<rparr>) \<and>
      response data = answer \<and>
      context_length_chars (metadata data) = length (py_join (NL @ NL) docs) \<and>
      prompt_length_chars (metadata data)
        = length (build_prompt (py_join (NL @ NL) docs) q))"
    using query_returns_reply[of retrieve self q n docs chat1 reply answer details t1 t2 t3 t4]
    by blast
qed

theorem prompt_follows_template_witness:
  "(\<exists>path data. query ''why?'' 5 example_app two_documents echo_backend
        example_time example_time later_time later_time
      = Inr (''Based on the following context from the document, please answer the question.'' @
             [CHR 0x0A, CHR 0x0A] @ ''Context:'' @ [CHR 0x0A] @
             ''first chunk'' @ [CHR 0x0A, CHR 0x0A] @ ''second chunk'' @
             [CHR 0x0A, CHR 0x0A] @ ''Question: why?'' @
             [CHR 0x0A, CHR 0x0A] @ ''Answer:'',
             example_app\<lparr>writes := writes example_app @ [(path, data)]\<rparr>) \<and>
      context_length_chars (metadata data) = 25 \<and>
      prompt_length_chars (metadata data) = 138) \<and>
   query ''why?'' 5 example_app two_documents echo_backend
       example_time example_time later_time later_time
     = query ''why?'' 5 example_app two_documents other_backend
       example_time example_time later_time later_time"
proof -
  let ?docs = "[''first chunk'', ''second chunk'']"
  let ?p = "build_prompt (py_join (NL @ NL) ?docs) ''why?''"
  let ?reply = "\<lparr>content = Inr ?p,
                  counters = [''prompt_eval_count'' \<mapsto> PyInt 12, ''eval_count'' \<mapsto> PyInt 30]\<rparr>"
  have r: "two_documents (collection example_app) ''why?'' 5 = Inr ?docs"
    by (simp add: two_documents_def)
  have c: "echo_backend (model example_app) ?p = Inr ?reply"
    by (simp add: echo_backend_def)
  have o: "other_backend (model example_app) ?p = Inr ?reply"
    by (simp add: other_backend_def echo_backend_def)
  obtain details where t: "token_details_of (token_info_of ?reply) = Inr details"
    using float_limit_pos by (simp add: token_details_of_def token_info_of_def get_or_zero_def)
  have p: "?p = ''Based on the following context from the document, please answer the question.'' @
             [CHR 0x0A, CHR 0x0A] @ ''Context:'' @ [CHR 0x0A] @
             ''first chunk'' @ [CHR 0x0A, CHR 0x0A] @ ''second chunk'' @
             [CHR 0x0A, CHR 0x0A] @ ''Question: why?'' @
             [CHR 0x0A, CHR 0x0A] @ ''Answer:''"
    by (simp add: build_prompt_def NL_def)
  have lp: "length ?p = 138" unfolding p by simp
  have lc: "length (py_join (NL @ NL) ?docs) = 25" by (simp add: NL_def)
  note inst = prompt_follows_template[of ?docs "''why?''" "''x''" "[]" two_documents example_app 5
      echo_backend other_backend example_time example_time later_time later_time ?reply ?p details]
  have same: "query ''why?'' 5 example_app two_documents echo_backend
       example_time example_time later_time later_time
     = query ''why?'' 5 example_app two_documents other_backend
       example_time example_time later_time later_time"
    using inst r c o by simp
  have "\<exists>path data. query ''why?'' 5 example_app two_documents echo_backend
        example_time example_time later_time later_time
      = Inr (?p, example_app\<lparr>writes := writes example_app @ [(path, data)]\<rparr>) \<and>
      response data = ?p \<and>
      context_length_chars (metadata data) = length (py_join (NL @ NL) ?docs) \<and>
      prompt_length_chars (metadata data) = length ?p"
    using inst[THEN conjunct2, THEN conjunct2, THEN conjunct2, THEN conjunct2] r c t by simp
  then obtain path data where
    run: "query ''why?'' 5 example_app two_documents echo_backend
        example_time example_time later_time later_time
      = Inr (?p, example_app\<lparr>writes := writes example_app @ [(path, data)]\<rparr>)"
    and cl: "context_length_chars (metadata data) = length (py_join (NL @ NL) ?docs)"
    and pl: "prompt_length_chars (metadata data) = length ?p"
    by blast
  have cl': "context_length_chars (metadata data) = 25" using cl lc by (simp only:)
  have pl': "prompt_length_chars (metadata data) = 138" using pl lp by (simp only:)
  have run': "query ''why?'' 5 example_app two_documents echo_backend
        example_time example_time later_time later_time
      = Inr (''Based on the following context from the document, please answer the question.'' @
             [CHR 0x0A, CHR 0x0A] @ ''Context:'' @ [CHR 0x0A] @
             ''first chunk'' @ [CHR 0x0A, CHR 0x0A] @ ''second chunk'' @
             [CHR 0x0A, CHR 0x0A] @ ''Question: why?'' @
             [CHR 0x0A, CHR 0x0A] @ ''Answer:'',
             example_app\<lparr>writes := writes example_app @ [(path, data)]\<rparr>)"
    using run p by (simp only:)
  from run' cl' pl' same show ?thesis by blast
qed

section \<open>Properties of the log file names\<close>

lemma length_zfill [simp]: "length (zfill w x) = w"
  by (induction w arbitrary: x) simp_all

lemma digit_char_inj: "a < 10 \<Longrightarrow> b < 10 \<Longrightarrow> digit_char a = digit_char b \<Longrightarrow> a = b"
proof -
  assume a: "a < 10" and b: "b < 10" and eq: "digit_char a = digit_char b"
  have "(of_char (digit_char a) :: nat) = of_char (digit_char b)" using eq by simp
  then have "(48 + a) mod 256 = (48 + b) mod 256" by (simp add: digit_char_def)
  then show "a = b" using a b by simp
qed

lemma zfill_inj:
  "x < 10 ^ w \<Longrightarrow> y < 10 ^ w \<Longrightarrow> zfill w x = zfill w y \<Longrightarrow> x = y"
proof (induction w arbitrary: x y)
  case 0
  then show ?case by simp
next
  case (Suc w)
  from Suc.prems(3) have hi: "zfill w (x div 10) = zfill w (y div 10)"
    and lo: "digit_char (x mod 10) = digit_char (y mod 10)" by simp_all
  have "x div 10 < 10 ^ w" and "y div 10 < 10 ^ w"
    using Suc.prems(1,2) by (simp_all add: less_mult_imp_div_less mult.commute)
  with hi have "x div 10 = y div 10" by (rule Suc.IH[rotated 2])
  moreover have "x mod 10 = y mod 10" using lo by (intro digit_char_inj) simp_all
  ultimately show ?case by (metis div_mult_mod_eq)
qed

lemma strftime_inj:
  assumes "valid_datetime t1" and "valid_datetime t2" and "strftime t1 = strftime t2"
  shows "t1 = t2"
proof -
  from assms(3) have
    "zfill 4 (year t1) = zfill 4 (year t2)" "zfill 2 (month t1) = zfill 2 (month t2)"
    "zfill 2 (day t1) = zfill 2 (day t2)" "zfill 2 (hour t1) = zfill 2 (hour t2)"
    "zfill 2 (minute t1) = zfill 2 (minute t2)" "zfill 2 (second t1) = zfill 2 (second t2)"
    "zfill 6 (microsecond t1) = zfill 6 (microsecond t2)"
    by (simp_all add: strftime_def)
  moreover have "year t1 < 10 ^ 4" "year t2 < 10 ^ 4" "month t1 < 10 ^ 2" "month t2 < 10 ^ 2"
    "day t1 < 10 ^ 2" "day t2 < 10 ^ 2" "hour t1 < 10 ^ 2" "hour t2 < 10 ^ 2"
    "minute t1 < 10 ^ 2" "minute t2 < 10 ^ 2" "second t1 < 10 ^ 2" "second t2 < 10 ^ 2"
    "microsecond t1 < 10 ^ 6" "microsecond t2 < 10 ^ 6"
    using assms(1,2) by (simp_all add: valid_datetime_def)
  ultimately have "year t1 = year t2" "month t1 = month t2" "day t1 = day t2"
    "hour t1 = hour t2" "minute t1 = minute t2" "second t1 = second t2"
    "microsecond t1 = microsecond t2"
    by (blast intro: zfill_inj)+
  then show ?thesis by simp
qed

lemma save_is_write:
  assumes "save_query_log self q a cl pl info t s = Inr self'"
  shows "\<exists>data. self' = write_log_file self t data"
  using assms by (auto simp: save_query_log_def split: sum.splits)

lemma disk_after_two_writes:
  assumes "log_file_name self t1 \<noteq> log_file_name self t2"
  shows "disk (write_log_file (write_log_file self t1 d1) t2 d2) (log_file_name self t1) = Some d1"
    and "disk (write_log_file (write_log_file self t1 d1) t2 d2) (log_file_name self t2) = Some d2"
  using assms by (simp_all add: disk_def write_log_file_def log_file_name_def)

text \<open>
  C8, as stated, fails: the file name is a function of the clock reading alone, so two
  writes that read the same microsecond get the same name, and the second record
  replaces the first: one file is left, holding the second question.
\<close>

theorem same_reading_counterexample:
  "save_query_log example_app ''q1'' ''an answer'' 0 0 None example_time example_time
     = Inr (write_log_file example_app example_time (example_log ''q1'')) \<and>
   save_query_log (write_log_file example_app example_time (example_log ''q1''))
       ''q2'' ''an answer'' 0 0 None example_time example_time
     = Inr (write_log_file (write_log_file example_app example_time (example_log ''q1''))
              example_time (example_log ''q2'')) \<and>
   fst (writes (write_log_file (write_log_file example_app example_time (example_log ''q1''))
              example_time (example_log ''q2'')) ! 0)
     = fst (writes (write_log_file (write_log_file example_app example_time (example_log ''q1''))
              example_time (example_log ''q2'')) ! 1) \<and>
   map_option question
     (disk (write_log_file (write_log_file example_app example_time (example_log ''q1''))
              example_time (example_log ''q2''))
        (log_file_name example_app example_time)) = Some ''q2'' \<and>
   dom (disk (write_log_file (write_log_file example_app example_time (example_log ''q1''))
              example_time (example_log ''q2'')))
     = {log_file_name example_app example_time}"
  by (simp add: save_query_log_def build_log_data_def write_log_file_def disk_def
        log_file_name_def example_app_def example_log_def)

text \<open>
  C8, amended: two log writes whose clock readings differ, be it only in the
  microsecond within the same second, get distinct file names, and after the second
  write both records are in the directory.
\<close>

theorem distinct_readings_distinct_log_files:
  assumes "valid_datetime t1" and "valid_datetime t2" and "t1 \<noteq> t2"
  shows "log_file_name self t1 \<noteq> log_file_name self t2 \<and>
         disk (write_log_file (write_log_file self t1 d1) t2 d2) (log_file_name self t1)
           = Some d1 \<and>
         disk (write_log_file (write_log_file self t1 d1) t2 d2) (log_file_name self t2)
           = Some d2 \<and>
         (save_query_log self q1 a1 c1 p1 i1 t1 s1 = Inr self1 \<and>
          save_query_log self1 q2 a2 c2 p2 i2 t2 s2 = Inr self2 \<longrightarrow>
            disk self2 (log_file_name self t1) = Some (snd (last (writes self1))) \<and>
            disk self2 (log_file_name self t2) = Some (snd (last (writes self2))))"
proof -
  have names: "log_file_name self t1 \<noteq> log_file_name self t2"
    using assms strftime_inj by (auto simp: log_file_name_def)
  have saved: "disk self2 (log_file_name self t1) = Some (snd (last (writes self1))) \<and>
               disk self2 (log_file_name self t2) = Some (snd (last (writes self2)))"
    if one: "save_query_log self q1 a1 c1 p1 i1 t1 s1 = Inr self1"
      and two: "save_query_log self1 q2 a2 c2 p2 i2 t2 s2 = Inr self2"
  proof -
    obtain d1 where s1: "self1 = write_log_file self t1 d1"
      using save_is_write[OF one] by blast
    obtain d2 where s2: "self2 = write_log_file self1 t2 d2"
      using save_is_write[OF two] by blast
    have same_dir: "log_file_name self1 t2 = log_file_name self t2"
      by (simp add: s1 write_log_file_def log_file_name_def)
    have "self2 = write_log_file (write_log_file self t1 d1) t2 d2" by (simp add: s1 s2)
    moreover have "snd (last (writes self1)) = d1" by (simp add: s1 write_log_file_def)
    moreover have "snd (last (writes self2)) = d2" by (simp add: s2 write_log_file_def)
    ultimately show ?thesis using disk_after_two_writes[OF names] by simp
  qed
  show ?thesis using names disk_after_two_writes[OF names] saved by blast
qed

theorem distinct_readings_distinct_log_files_witness:
  "second example_time = second later_time \<and>
   log_file_name example_app example_time = ''query_logs/query_20251105_090307_000042.json'' \<and>
   log_file_name example_app later_time = ''query_logs/query_20251105_090307_000043.json'' \<and>
   log_file_name example_app example_time \<noteq> log_file_name example_app later_time \<and>
   disk (write_log_file (write_log_file example_app example_time (example_log ''q1''))
           later_time (example_log ''q2''))
     (log_file_name example_app example_time) = Some (example_log ''q1'') \<and>
   save_query_log example_app ''q1'' ''an answer'' 0 0 None example_time example_time
     = Inr (write_log_file example_app example_time (example_log ''q1'')) \<and>
   save_query_log (write_log_file example_app example_time (example_log ''q1''))
       ''q2'' ''an answer'' 0 0 None later_time example_time
     = Inr (write_log_file (write_log_file example_app example_time (example_log ''q1''))
              later_time (example_log ''q2''))"
proof -
  have sv1: "save_query_log example_app ''q1'' ''an answer'' 0 0 None example_time example_time
     = Inr (write_log_file example_app example_time (example_log ''q1''))"
    and sv2: "save_query_log (write_log_file example_app example_time (example_log ''q1''))
       ''q2'' ''an answer'' 0 0 None later_time example_time
     = Inr (write_log_file (write_log_file example_app example_time (example_log ''q1''))
              later_time (example_log ''q2''))"
    by (simp_all add: save_query_log_def build_log_data_def write_log_file_def
          log_file_name_def example_app_def example_log_def)
  have v1: "valid_datetime example_time" and v2: "valid_datetime later_time"
    by (simp_all add: valid_datetime_def example_time_def later_time_def)
  have ne: "example_time \<noteq> later_time"
    by (simp add: example_time_def later_time_def)
  have n1: "log_file_name example_app example_time = ''query_logs/query_20251105_090307_000042.json''"
    and n2: "log_file_name example_app later_time = ''query_logs/query_20251105_090307_000043.json''"
    by code_simp+
  have same_second: "second example_time = second later_time"
    by (simp add: example_time_def later_time_def)
  note inst = distinct_readings_distinct_log_files[OF v1 v2 ne, of example_app
      "example_log ''q1''" "example_log ''q2''"]
  have "log_file_name example_app example_time \<noteq> log_file_name example_app later_time"
    using inst by blast
  moreover have "disk (write_log_file (write_log_file example_app example_time (example_log ''q1''))
           later_time (example_log ''q2''))
     (log_file_name example_app example_time) = Some (example_log ''q1'')"
    using inst by blast
  ultimately show ?thesis using same_second n1 n2 sv1 sv2 by simp
qed

section \<open>Properties of the vector index model\<close>

lemma length_insert_ranked [simp]: "length (insert_ranked x ys) = Suc (length ys)"
  by (induction ys) simp_all

lemma mset_insert_ranked [simp]: "mset (insert_ranked x ys) = add_mset x (mset ys)"
  by (induction ys) simp_all

lemma set_insert_ranked [simp]: "set (insert_ranked x ys) = insert x (set ys)"
  by (induction ys) auto

lemma length_rank [simp]: "length (rank xs) = length xs"
  by (induction xs) (simp_all add: rank_def)

lemma mset_rank [simp]: "mset (rank xs) = mset xs"
  by (induction xs) (simp_all add: rank_def)

lemma sorted_insert_ranked:
  "sorted_wrt (\<lambda>a b. snd b \<le> snd a) ys \<Longrightarrow> sorted_wrt (\<lambda>a b. snd b \<le> snd a) (insert_ranked x ys)"
  by (induction ys) auto

lemma sorted_rank: "sorted_wrt (\<lambda>a b. snd b \<le> snd a) (rank xs)"
  by (induction xs) (simp_all add: rank_def sorted_insert_ranked)

lemma sorted_wrt_take_ranked:
  "sorted_wrt P xs \<Longrightarrow> sorted_wrt P (take k xs)"
  by (induction xs arbitrary: k) (auto simp: take_Cons' dest: in_set_takeD)

text \<open>
  C7, on the model of the vector index: a query returns at most \<open>top_k\<close> results and
  at most \<open>count()\<close> results, in order of non-increasing score, each an entry of the
  index with its score; with fewer than \<open>top_k\<close> entries it returns all of them.
\<close>

theorem vector_index_query_bounded_and_ranked:
  "length (vector_index_query similarity entries text top_k) \<le> top_k \<and>
   length (vector_index_query similarity entries text top_k) \<le> vector_index_count entries \<and>
   sorted_wrt (\<lambda>a b. snd b \<le> snd a) (vector_index_query similarity entries text top_k) \<and>
   (\<forall>r\<in>set (vector_index_query similarity entries text top_k).
      fst r \<in> set entries \<and> snd r = similarity text (document (fst r))) \<and>
   (vector_index_count entries < top_k \<longrightarrow>
      mset (map fst (vector_index_query similarity entries text top_k)) = mset entries)"
proof (intro conjI)
  let ?scored = "map (\<lambda>e. (e, similarity text (document e))) entries"
  show "length (vector_index_query similarity entries text top_k) \<le> top_k"
    by (simp add: vector_index_query_def)
  show "length (vector_index_query similarity entries text top_k) \<le> vector_index_count entries"
    by (simp add: vector_index_query_def vector_index_count_def)
  show "sorted_wrt (\<lambda>a b. snd b \<le> snd a) (vector_index_query similarity entries text top_k)"
    unfolding vector_index_query_def by (rule sorted_wrt_take_ranked[OF sorted_rank])
  show "\<forall>r\<in>set (vector_index_query similarity entries text top_k).
      fst r \<in> set entries \<and> snd r = similarity text (document (fst r))"
  proof
    fix r assume "r \<in> set (vector_index_query similarity entries text top_k)"
    then have "r \<in> set (rank ?scored)"
      unfolding vector_index_query_def by (rule in_set_takeD)
    then have "r \<in># mset ?scored" by (metis mset_rank set_mset_mset)
    then show "fst r \<in> set entries \<and> snd r = similarity text (document (fst r))" by auto
  qed
  show "vector_index_count entries < top_k \<longrightarrow>
      mset (map fst (vector_index_query similarity entries text top_k)) = mset entries"
  proof
    assume "vector_index_count entries < top_k"
    then have "vector_index_query similarity entries text top_k = rank ?scored"
      by (simp add: vector_index_query_def vector_index_count_def)
    moreover have "mset (map fst (rank ?scored)) = mset (map fst ?scored)"
      by (metis mset_map mset_rank)
    ultimately show "mset (map fst (vector_index_query similarity entries text top_k)) = mset entries"
      by (simp add: comp_def)
  qed
qed

theorem vector_index_query_bounded_and_ranked_witness:
  "vector_index_count three_entries < 5 \<and>
   map (\<lambda>r. (entry_id (fst r), snd r)) (vector_index_query length_similarity three_entries ''x'' 5)
     = [(''chunk_1'', 4), (''chunk_2'', 3), (''chunk_0'', 2)] \<and>
   mset (map fst (vector_index_query length_similarity three_entries ''x'' 5)) = mset three_entries"
proof -
  have c: "vector_index_count three_entries < 5"
    by (simp add: vector_index_count_def three_entries_def)
  have r: "map (\<lambda>r. (entry_id (fst r), snd r)) (vector_index_query length_similarity three_entries ''x'' 5)
     = [(''chunk_1'', 4), (''chunk_2'', 3), (''chunk_0'', 2)]"
    by (simp add: vector_index_query_def rank_def three_entries_def length_similarity_def)
  show ?thesis
    using vector_index_query_bounded_and_ranked[of length_similarity three_entries "''x''" 5] c r
    by simp
qed

end
